theory Spec2Isabelle
  imports Main "HOL-Library.Sublist"
begin

section \<open>The text backend of errbot: identities, rooms and the session loop\<close>

text \<open>
  A shallow embedding of \<^verbatim>\<open>errbot/backends/text.py\<close>. Python objects that are
  mutated through references (the rooms) live in an explicit heap, a list of room
  records addressed by position; a \<^verbatim>\<open>TextRoom(...)\<close> call allocates the next
  address. Exceptions are values of the type \<open>exn\<close>. Calls into the host framework
  (\<^verbatim>\<open>ErrBot\<close>, not part of this file of the repository) are recorded as effects.
\<close>

subsection \<open>Exceptions\<close>

datatype exn =
    ValueError string
  | IndexError
  | EOFError
  | KeyboardInterrupt
  | AttributeError
  | OtherError string

definition invalid_identifier :: exn where
  "invalid_identifier =
     ValueError ''An identifier for the Text backend needs to start by # for a room or @ for a person.''"

definition invalid_room_name :: exn where
  "invalid_room_name = ValueError ''A Room name must start by #.''"

definition too_many_values :: exn where
  "too_many_values = ValueError ''too many values to unpack (expected 2)''"

definition not_enough_values :: exn where
  "not_enough_values = ValueError ''not enough values to unpack''"

subsection \<open>Persons, occupants, rooms\<close>

record text_person =
  person :: string
  client :: "string option"
  nick :: "string option"
  fullname :: "string option"

text \<open>\<^verbatim>\<open>TextPerson(person)\<close>: the other three arguments default to \<^verbatim>\<open>None\<close>.\<close>

definition TextPerson :: "string \<Rightarrow> text_person" where
  "TextPerson p = \<lparr>person = p, client = None, nick = None, fullname = None\<rparr>"

text \<open>
  What the source stores in the \<^verbatim>\<open>_person\<close> field of a \<^verbatim>\<open>TextOccupant\<close>: a
  plain string (\<^verbatim>\<open>TextOccupant('somebody', self)\<close>) or a \<^verbatim>\<open>TextPerson\<close>.
\<close>

datatype pval = Str string | Pers text_person

datatype text_occupant = TextOccupant (occ_person: pval) (occ_room: nat)

record text_room =
  topic :: string
  joined :: bool
  name :: string
  occupants :: "text_occupant list"

datatype ident = Person text_person | Occupant text_occupant | Room nat

text \<open>
  The backend object. \<open>bot_admin\<close> is \<^verbatim>\<open>bot_config.BOT_ADMINS[0]\<close>: \<^verbatim>\<open>__init__\<close>
  reads that entry, so a backend only exists when the list has one. \<open>bot_identifier\<close>
  is the person \<^verbatim>\<open>__init__\<close> builds from the configured user name. Both, and the two
  flags, are fixed once the backend is built; the mutable attributes form the session.
  The last four fields are the escape sequences of the \<^verbatim>\<open>ansi\<close> library.
\<close>

record backend =
  bot_admin :: string
  bot_identifier :: text_person
  demo_mode :: bool
  ANSI :: bool
  fg_red :: string
  fg_green :: string
  fg_cyan :: string
  fx_reset :: string

record session =
  user :: text_person
  inroom :: bool
  rooms :: "nat list"
  heap :: "text_room list"

subsection \<open>Equality and hashing\<close>

text \<open>\<^verbatim>\<open>TextPerson.__eq__\<close> and \<^verbatim>\<open>__hash__\<close>, for two persons; \<open>H\<close> is the hash of
  Python strings.\<close>

definition person_eq :: "text_person \<Rightarrow> text_person \<Rightarrow> bool" where
  "person_eq p other = (person p = person other)"

definition person_hash :: "(string \<Rightarrow> int) \<Rightarrow> text_person \<Rightarrow> int" where
  "person_hash H p = H (person p)"

text \<open>
  \<^verbatim>\<open>==\<close> on the values of a \<^verbatim>\<open>_person\<close> field. A string against a person:
  \<^verbatim>\<open>str.__eq__\<close> declines and \<^verbatim>\<open>TextPerson.__eq__\<close> answers \<^verbatim>\<open>False\<close>, the string
  not being a \<^verbatim>\<open>Person\<close>.
\<close>

fun pval_eq :: "pval \<Rightarrow> pval \<Rightarrow> bool" where
  "pval_eq (Str a) (Str b) = (a = b)"
| "pval_eq (Pers p) (Pers q) = person_eq p q"
| "pval_eq (Str a) (Pers q) = False"
| "pval_eq (Pers p) (Str b) = False"

fun pval_hash :: "(string \<Rightarrow> int) \<Rightarrow> pval \<Rightarrow> int" where
  "pval_hash H (Str a) = H a"
| "pval_hash H (Pers p) = person_hash H p"

text \<open>\<^verbatim>\<open>TextRoom.__eq__\<close> and \<^verbatim>\<open>__hash__\<close>: by name, read through the heap.\<close>

definition room_eq :: "text_room list \<Rightarrow> nat \<Rightarrow> nat \<Rightarrow> bool" where
  "room_eq h a other = (name (h ! a) = name (h ! other))"

definition room_hash :: "(string \<Rightarrow> int) \<Rightarrow> text_room list \<Rightarrow> nat \<Rightarrow> int" where
  "room_hash H h a = H (name (h ! a))"

text \<open>\<^verbatim>\<open>TextOccupant.__eq__\<close> and \<^verbatim>\<open>__hash__\<close>.\<close>

definition occupant_eq :: "text_room list \<Rightarrow> text_occupant \<Rightarrow> text_occupant \<Rightarrow> bool" where
  "occupant_eq h x other =
     (pval_eq (occ_person x) (occ_person other) \<and> room_eq h (occ_room x) (occ_room other))"

definition occupant_hash :: "(string \<Rightarrow> int) \<Rightarrow> text_room list \<Rightarrow> text_occupant \<Rightarrow> int" where
  "occupant_hash H h x = pval_hash H (occ_person x) + room_hash H h (occ_room x)"

subsection \<open>Rooms\<close>

text \<open>\<^verbatim>\<open>TextRoom.__init__\<close>: the new object gets the next address of the heap.\<close>

definition new_room :: "backend \<Rightarrow> nat \<Rightarrow> string \<Rightarrow> text_room" where
  "new_room b a nm =
     \<lparr>topic = [], joined = False, name = nm,
      occupants = [TextOccupant (Str ''somebody'') a,
                   TextOccupant (Pers (TextPerson (bot_admin b))) a,
                   TextOccupant (Pers (bot_identifier b)) a]\<rparr>"

definition TextRoom :: "backend \<Rightarrow> session \<Rightarrow> string \<Rightarrow> nat \<times> session" where
  "TextRoom b s nm =
     (let a = length (heap s) in (a, s\<lparr>heap := heap s @ [new_room b a nm]\<rparr>))"

text \<open>The methods of a room, on the fields of the object.\<close>

definition join :: "text_room \<Rightarrow> text_room" where
  "join r = r\<lparr>joined := True\<rparr>"

definition leave :: "text_room \<Rightarrow> text_room" where
  "leave r = r\<lparr>joined := False\<rparr>"

definition create :: "text_room \<Rightarrow> text_room" where
  "create r = r\<lparr>joined := True\<rparr>"

definition destroy :: "text_room \<Rightarrow> text_room" where
  "destroy r = r\<lparr>joined := False\<rparr>"

definition set_topic :: "string \<Rightarrow> text_room \<Rightarrow> text_room" where
  "set_topic t r = r\<lparr>topic := t\<rparr>"

text \<open>Calling a method through a reference mutates the object at that address.\<close>

definition call :: "nat \<Rightarrow> (text_room \<Rightarrow> text_room) \<Rightarrow> session \<Rightarrow> session" where
  "call a m s = s\<lparr>heap := (heap s)[a := m (heap s ! a)]\<rparr>"

subsection \<open>The room registry and identity resolution\<close>

text \<open>\<^verbatim>\<open>x in xs\<close> on a list of rooms: the same object, or one equal to it.\<close>

definition room_in :: "text_room list \<Rightarrow> nat \<Rightarrow> nat list \<Rightarrow> bool" where
  "room_in h a rs = list_ex (\<lambda>r. r = a \<or> room_eq h r a) rs"

text \<open>
  \<^verbatim>\<open>query_room\<close>. \<^verbatim>\<open>room[0]\<close> raises \<^verbatim>\<open>IndexError\<close> on the empty string. The room
  returned is always the one just constructed.
\<close>

definition query_room :: "backend \<Rightarrow> session \<Rightarrow> string \<Rightarrow> (exn + nat) \<times> session" where
  "query_room b s room =
     (case room of
        [] \<Rightarrow> (Inl IndexError, s)
      | c # rest \<Rightarrow>
          if c \<noteq> CHR ''#'' then (Inl invalid_room_name, s)
          else
            (let (text_room, s1) = TextRoom b s rest in
             if \<not> room_in (heap s1) text_room (rooms s1)
             then (Inr text_room, s1\<lparr>rooms := rooms s1 @ [text_room]\<rparr>)
             else (Inr text_room, s1)))"

definition startswith :: "string \<Rightarrow> char \<Rightarrow> bool" where
  "startswith t c = (case t of [] \<Rightarrow> False | x # _ \<Rightarrow> x = c)"

text \<open>\<^verbatim>\<open>str.split(sep)\<close> for a separator of one character.\<close>

fun str_split :: "char \<Rightarrow> string \<Rightarrow> string list" where
  "str_split sep [] = [[]]"
| "str_split sep (c # cs) =
     (if c = sep then [] # str_split sep cs
      else (case str_split sep cs of [] \<Rightarrow> [[c]] | p # ps \<Rightarrow> (c # p) # ps))"

text \<open>
  \<^verbatim>\<open>build_identifier\<close>. \<^verbatim>\<open>room, person = rem.split('/')\<close> raises \<^verbatim>\<open>ValueError\<close>
  unless the split has exactly two parts. The room of an occupant is constructed
  directly; a room alone goes through \<^verbatim>\<open>query_room(rem)\<close>, \<open>rem\<close> being the text
  without its first character.
\<close>

definition build_identifier ::
  "backend \<Rightarrow> session \<Rightarrow> string \<Rightarrow> (exn + ident) \<times> session" where
  "build_identifier b s text_representation =
     (if startswith text_representation CHR ''#'' then
        (let rem = drop 1 text_representation in
         if CHR ''/'' \<in> set text_representation then
           (case str_split CHR ''/'' rem of
              [room, p] \<Rightarrow>
                (let (text_room, s1) = TextRoom b s room in
                 (Inr (Occupant (TextOccupant (Pers (TextPerson p)) text_room)), s1))
            | _ # _ # _ # _ \<Rightarrow> (Inl too_many_values, s)
            | _ \<Rightarrow> (Inl not_enough_values, s))
         else
           (case query_room b s rem of
              (Inl e, s1) \<Rightarrow> (Inl e, s1)
            | (Inr text_room, s1) \<Rightarrow> (Inr (Room text_room), s1)))
      else if \<not> startswith text_representation CHR ''@'' then (Inl invalid_identifier, s)
      else (Inr (Person (TextPerson (drop 1 text_representation))), s))"

subsection \<open>Messages and the calls into the host framework\<close>

record message =
  body :: string
  frm :: ident
  to :: ident

datatype status = ONLINE | OFFLINE

text \<open>
  One constructor for each call that leaves this module: the hooks of \<^verbatim>\<open>ErrBot\<close>,
  \<^verbatim>\<open>input\<close> with its prompt, \<^verbatim>\<open>sleep\<close>, and \<^verbatim>\<open>send\<close> with its \<^verbatim>\<open>in_reply_to\<close>.
\<close>

datatype effect =
    InjectCommands
  | RemoveConsoleLog
  | ConnectCallback
  | CallbackPresence text_person status
  | Input string
  | CallbackMessage message
  | CallbackMention message "ident list"
  | Sleep
  | DisconnectCallback
  | Shutdown
  | Send ident string "message option"

subsection \<open>Reactions\<close>

definition react :: "string \<Rightarrow> message \<Rightarrow> string \<Rightarrow> session \<Rightarrow> effect list \<times> session" where
  "react sign msg reaction s =
     ([Send (frm msg) (''reaction '' @ sign @ '':'' @ reaction @ '':'') (Some msg)], s)"

definition add_reaction :: "message \<Rightarrow> string \<Rightarrow> session \<Rightarrow> effect list \<times> session" where
  "add_reaction msg reaction s = react ''+'' msg reaction s"

definition remove_reaction :: "message \<Rightarrow> string \<Rightarrow> session \<Rightarrow> effect list \<times> session" where
  "remove_reaction msg reaction s = react ''-'' msg reaction s"

subsection \<open>The session loop\<close>

text \<open>\<^verbatim>\<open>__str__\<close> of the three kinds of identity. An occupant prints
  \<^verbatim>\<open>self._person.person\<close>, which a plain string does not have.\<close>

fun str_ident :: "text_room list \<Rightarrow> ident \<Rightarrow> exn + string" where
  "str_ident h (Person p) = Inr (CHR ''@'' # person p)"
| "str_ident h (Room a) = Inr (CHR ''#'' # name (h ! a))"
| "str_ident h (Occupant (TextOccupant (Pers p) a)) =
     Inr (CHR ''#'' # name (h ! a) @ CHR ''/'' # person p)"
| "str_ident h (Occupant (TextOccupant (Str v) a)) = Inl AttributeError"

text \<open>The arrow of the prompt, U+27A1, in UTF-8.\<close>

definition arrow :: string where
  "arrow = [CHR 0xE2, CHR 0x9E, CHR 0xA1]"

definition prompt :: "backend \<Rightarrow> session \<Rightarrow> ident \<Rightarrow> ident \<Rightarrow> exn + string" where
  "prompt b s f t =
     (case str_ident (heap s) f of
        Inl e \<Rightarrow> Inl e
      | Inr fs \<Rightarrow>
          (case str_ident (heap s) t of
             Inl e \<Rightarrow> Inl e
           | Inr ts \<Rightarrow>
               if ANSI b \<or> demo_mode b then
                 (let color = (if sublist (person (user s)) (bot_admin b) then fg_red b
                               else fg_green b)
                  in Inr ([CHR 0x0A] @ color @ ''['' @ fs @ '' '' @ arrow @ '' '' @ ts @ '']''
                          @ fg_cyan b @ '' >>> '' @ fx_reset b))
               else Inr ([CHR 0x0A] @ ''['' @ fs @ '' '' @ arrow @ '' '' @ ts @ ''] >>> '')))"

text \<open>The sender and the recipient of the next message; \<^verbatim>\<open>self.rooms[0]\<close> raises on
  an empty registry.\<close>

definition frm_to :: "backend \<Rightarrow> session \<Rightarrow> exn + ident \<times> ident" where
  "frm_to b s =
     (if inroom s then
        (case rooms s of
           [] \<Rightarrow> Inl IndexError
         | r # _ \<Rightarrow> Inr (Occupant (TextOccupant (Pers (user s)) r), Room r))
      else Inr (Person (user s), Person (bot_identifier b)))"

text \<open>
  \<^verbatim>\<open>re.findall(r"@[\w']+", entry)\<close>: the matches from left to right, each the longest
  run at its place, the search going on behind a match. Strings are ASCII here, where
  \<^verbatim>\<open>\w\<close> is a letter, a digit or the underscore.
\<close>

definition word_char :: "char \<Rightarrow> bool" where
  "word_char c =
     (c \<in> set ''abcdefghijklmnopqrstuvwxyzABCDEFGHIJKLMNOPQRSTUVWXYZ0123456789_''
      \<or> c = CHR 0x27)"

function findall_mentions :: "string \<Rightarrow> string list" where
  "findall_mentions [] = []"
| "findall_mentions (c # cs) =
     (if c = CHR ''@'' \<and> takeWhile word_char cs \<noteq> []
      then (c # takeWhile word_char cs) # findall_mentions (dropWhile word_char cs)
      else findall_mentions cs)"
  by pat_completeness auto
termination
  by (relation "measure length") (auto simp: le_imp_less_Suc length_dropWhile_le)

text \<open>The list comprehension: one \<^verbatim>\<open>build_identifier\<close> call for each word, in order,
  the first exception ending it.\<close>

fun build_all :: "backend \<Rightarrow> session \<Rightarrow> string list \<Rightarrow> (exn + ident list) \<times> session" where
  "build_all b s [] = (Inr [], s)"
| "build_all b s (w # ws) =
     (case build_identifier b s w of
        (Inl e, s1) \<Rightarrow> (Inl e, s1)
      | (Inr i, s1) \<Rightarrow>
          (case build_all b s1 ws of
             (Inl e, s2) \<Rightarrow> (Inl e, s2)
           | (Inr is, s2) \<Rightarrow> (Inr (i # is), s2)))"

definition mentioned :: "backend \<Rightarrow> session \<Rightarrow> string \<Rightarrow> (exn + ident list) \<times> session" where
  "mentioned b s entry =
     build_all b s
       (map (drop 1) (filter (\<lambda>word. startswith word CHR ''@'') (findall_mentions entry)))"

text \<open>
  \<^verbatim>\<open>callback_message\<close> belongs to the host framework. What it does is a parameter:
  given the message and the session it returns the session it leaves behind and the
  exception it lets through, if any.
\<close>

type_synonym handler = "message \<Rightarrow> session \<Rightarrow> exn option \<times> session"

text \<open>The body of the loop up to the \<^verbatim>\<open>input\<close> call: sender, recipient, prompt.\<close>

definition before_input :: "backend \<Rightarrow> session \<Rightarrow> exn + ident \<times> ident \<times> string" where
  "before_input b s =
     (case frm_to b s of
        Inl e \<Rightarrow> Inl e
      | Inr (f, t) \<Rightarrow> (case prompt b s f t of Inl e \<Rightarrow> Inl e | Inr p \<Rightarrow> Inr (f, t, p)))"

text \<open>The body of the loop once \<^verbatim>\<open>input\<close> has returned \<open>entry\<close>.\<close>

definition after_input ::
  "backend \<Rightarrow> session \<Rightarrow> ident \<Rightarrow> ident \<Rightarrow> string \<Rightarrow> handler
     \<Rightarrow> effect list \<times> exn option \<times> session" where
  "after_input b s f t entry callback_message =
     (let msg = \<lparr>body = entry, frm = f, to = t\<rparr> in
      case callback_message msg s of
        (Some e, s1) \<Rightarrow> ([CallbackMessage msg], Some e, s1)
      | (None, s1) \<Rightarrow>
          (case mentioned b s1 entry of
             (Inl e, s2) \<Rightarrow> ([CallbackMessage msg], Some e, s2)
           | (Inr ms, s2) \<Rightarrow>
               ([CallbackMessage msg] @ (if ms \<noteq> [] then [CallbackMention msg ms] else [])
                  @ [Sleep], None, s2)))"

text \<open>
  The \<^verbatim>\<open>while True\<close> loop. The console is a script: the lines \<^verbatim>\<open>input\<close> returns,
  each with what the host's handler does on its message, and the exception \<^verbatim>\<open>input\<close>
  raises once the lines are used up (\<^verbatim>\<open>EOFError\<close> at the end of the input). The loop
  only ends by an exception, which is returned with the effects so far.
\<close>

fun serve_loop ::
  "backend \<Rightarrow> (string \<times> handler) list \<Rightarrow> exn \<Rightarrow> session \<Rightarrow> effect list \<times> exn \<times> session" where
  "serve_loop b [] fin s =
     (case before_input b s of
        Inl e \<Rightarrow> ([], e, s)
      | Inr (f, t, p) \<Rightarrow> ([Input p], fin, s))"
| "serve_loop b ((entry, h) # script) fin s =
     (case before_input b s of
        Inl e \<Rightarrow> ([], e, s)
      | Inr (f, t, p) \<Rightarrow>
          (case after_input b s f t entry h of
             (effs, Some e, s1) \<Rightarrow> (Input p # effs, e, s1)
           | (effs, None, s1) \<Rightarrow>
               (case serve_loop b script fin s1 of
                  (tr, e, s2) \<Rightarrow> (Input p # effs @ tr, e, s2))))"

text \<open>\<^verbatim>\<open>serve_forever\<close> before the \<^verbatim>\<open>try\<close>: an exception here is not handled.\<close>

definition startup :: "backend \<Rightarrow> session \<Rightarrow> effect list \<times> exn option \<times> session" where
  "startup b s =
     (case (if rooms s = [] then
              (case query_room b s ''#testroom'' of
                 (Inl e, s1) \<Rightarrow> (Some e, s1)
               | (Inr r, s1) \<Rightarrow> (None, call r join s1))
            else (None, s)) of
        (Some e, s1) \<Rightarrow> ([InjectCommands], Some e, s1)
      | (None, s1) \<Rightarrow>
          ([InjectCommands] @ (if demo_mode b then [RemoveConsoleLog] else [])
             @ [ConnectCallback, CallbackPresence (user s1) ONLINE], None, s1))"

text \<open>
  \<^verbatim>\<open>serve_forever\<close>: the effects, the exception that leaves it (\<^verbatim>\<open>EOFError\<close> and
  \<^verbatim>\<open>KeyboardInterrupt\<close> are swallowed) and the final session. The \<^verbatim>\<open>finally\<close> block
  runs after the loop whatever ended it.
\<close>

definition serve_forever ::
  "backend \<Rightarrow> (string \<times> handler) list \<Rightarrow> exn \<Rightarrow> session
     \<Rightarrow> effect list \<times> exn option \<times> session" where
  "serve_forever b script fin s =
     (case startup b s of
        (pre, Some e, s1) \<Rightarrow> (pre, Some e, s1)
      | (pre, None, s1) \<Rightarrow>
          (case serve_loop b script fin s1 of
             (tr, e, s2) \<Rightarrow>
               (pre @ tr @ [CallbackPresence (user s2) OFFLINE, DisconnectCallback, Shutdown],
                if e = EOFError \<or> e = KeyboardInterrupt then None else Some e,
                s2)))"

subsection \<open>Sequences of registry operations\<close>

datatype operation = QueryRoom string | BuildIdentifier string | Startup

fun exec :: "backend \<Rightarrow> operation \<Rightarrow> session \<Rightarrow> session" where
  "exec b (QueryRoom room) s = snd (query_room b s room)"
| "exec b (BuildIdentifier t) s = snd (build_identifier b s t)"
| "exec b Startup s = snd (snd (startup b s))"

fun run :: "backend \<Rightarrow> operation list \<Rightarrow> session \<Rightarrow> session" where
  "run b [] s = s"
| "run b (x # xs) s = run b xs (exec b x s)"

text \<open>
  Every registered address is allocated. This holds of the empty registry and is kept by
  every operation below; in Python it cannot fail, a reference always leading to an
  object.
\<close>

definition allocated :: "session \<Rightarrow> bool" where
  "allocated s = list_all (\<lambda>a. a < length (heap s)) (rooms s)"

text \<open>The names of the registered rooms, in the order of the registry.\<close>

definition registry_names :: "session \<Rightarrow> string list" where
  "registry_names s = map (\<lambda>a. name (heap s ! a)) (rooms s)"

subsection \<open>A backend and a fresh session, for concrete runs\<close>

definition a_backend :: backend where
  "a_backend =
     \<lparr>bot_admin = ''@admin'', bot_identifier = TextPerson ''errbot'',
      demo_mode = False, ANSI = False,
      fg_red = [], fg_green = [], fg_cyan = [], fx_reset = []\<rparr>"

definition fresh_session :: session where
  "fresh_session = \<lparr>user = TextPerson ''admin'', inroom = False, rooms = [], heap = []\<rparr>"

definition quiet :: handler where
  "quiet msg s = (None, s)"

section \<open>Properties\<close>

subsection \<open>Auxiliary facts about allocation and the registry\<close>

lemma TextRoom_eq:
  "TextRoom b s nm = (length (heap s), s\<lparr>heap := heap s @ [new_room b (length (heap s)) nm]\<rparr>)"
  by (simp add: TextRoom_def Let_def)

lemma name_new_room: "name (new_room b a nm) = nm"
  by (simp add: new_room_def)

lemma allocatedD: "allocated s \<Longrightarrow> a \<in> set (rooms s) \<Longrightarrow> a < length (heap s)"
  by (simp add: allocated_def list_all_iff)

lemma allocated_fresh: "allocated fresh_session"
  by (simp add: allocated_def fresh_session_def)

lemma allocated_no_rooms: "rooms s = [] \<Longrightarrow> allocated s"
  by (simp add: allocated_def)

lemma room_in_fresh:
  assumes "allocated s"
  shows "room_in (heap s @ [r]) (length (heap s)) (rooms s) \<longleftrightarrow> name r \<in> set (registry_names s)"
proof -
  have "\<And>x. x \<in> set (rooms s) \<Longrightarrow> x < length (heap s)"
    using assms by (simp add: allocated_def list_all_iff)
  then show ?thesis
    by (force simp: room_in_def registry_names_def list_ex_iff room_eq_def nth_append)
qed

lemma query_room_hash:
  assumes "allocated s"
  shows "query_room b s (CHR ''#'' # nm) =
    (Inr (length (heap s)),
     s\<lparr>heap := heap s @ [new_room b (length (heap s)) nm],
       rooms := (if nm \<in> set (registry_names s) then rooms s else rooms s @ [length (heap s)])\<rparr>)"
  using room_in_fresh [OF assms, of "new_room b (length (heap s)) nm"]
  by (simp add: query_room_def TextRoom_eq name_new_room)

lemma names_append:
  "allocated s \<Longrightarrow> map (\<lambda>a. name ((heap s @ xs) ! a)) (rooms s) = registry_names s"
  by (auto simp: registry_names_def nth_append dest: allocatedD)

lemma query_room_names:
  assumes "allocated s"
  shows "registry_names (snd (query_room b s (CHR ''#'' # nm))) =
     (if nm \<in> set (registry_names s) then registry_names s else registry_names s @ [nm])"
proof -
  let ?h = "heap s @ [new_room b (length (heap s)) nm]"
  have old: "map (\<lambda>a. name (?h ! a)) (rooms s) = registry_names s"
    using assms by (rule names_append)
  have new: "name (?h ! length (heap s)) = nm"
    by (simp add: name_new_room)
  show ?thesis
  proof (cases "nm \<in> set (registry_names s)")
    case True
    then have "registry_names (snd (query_room b s (CHR ''#'' # nm)))
        = map (\<lambda>a. name (?h ! a)) (rooms s)"
      by (simp add: query_room_hash [OF assms] registry_names_def del: map_eq_conv)
    with old True show ?thesis by simp
  next
    case False
    then have "registry_names (snd (query_room b s (CHR ''#'' # nm)))
        = map (\<lambda>a. name (?h ! a)) (rooms s) @ [name (?h ! length (heap s))]"
      by (simp add: query_room_hash [OF assms] registry_names_def del: map_eq_conv)
    with old new False show ?thesis by simp
  qed
qed

lemma query_room_inv:
  assumes "allocated s" and "distinct (registry_names s)"
  shows "allocated (snd (query_room b s room)) \<and> distinct (registry_names (snd (query_room b s room)))
    \<and> prefix (rooms s) (rooms (snd (query_room b s room)))
    \<and> prefix (heap s) (heap (snd (query_room b s room)))"
proof (cases room)
  case Nil
  with assms show ?thesis by (simp add: query_room_def)
next
  case (Cons c nm)
  show ?thesis
  proof (cases "c = CHR ''#''")
    case False
    with Cons assms show ?thesis by (simp add: query_room_def)
  next
    case True
    have al: "list_all (\<lambda>a. a < Suc (length (heap s))) (rooms s)"
      using assms(1) by (auto simp: allocated_def list_all_iff)
    have "allocated (snd (query_room b s (CHR ''#'' # nm)))"
      using al by (simp add: query_room_hash [OF assms(1)] allocated_def)
    moreover have "distinct (registry_names (snd (query_room b s (CHR ''#'' # nm))))"
      using assms(2) by (simp add: query_room_names [OF assms(1)])
    moreover have "prefix (rooms s) (rooms (snd (query_room b s (CHR ''#'' # nm))))
        \<and> prefix (heap s) (heap (snd (query_room b s (CHR ''#'' # nm))))"
      by (simp add: query_room_hash [OF assms(1)])
    ultimately show ?thesis unfolding Cons True by blast
  qed
qed

lemma build_identifier_state:
  "snd (build_identifier b s t) = s
   \<or> (\<exists>nm. snd (build_identifier b s t) = s\<lparr>heap := heap s @ [new_room b (length (heap s)) nm]\<rparr>)
   \<or> snd (build_identifier b s t) = snd (query_room b s (drop 1 t))"
  by (auto simp: build_identifier_def TextRoom_eq Let_def split: list.splits prod.splits sum.splits)

lemma alloc_only_inv:
  assumes "allocated s" and "distinct (registry_names s)"
  shows "allocated (s\<lparr>heap := heap s @ xs\<rparr>) \<and> distinct (registry_names (s\<lparr>heap := heap s @ xs\<rparr>))
    \<and> prefix (rooms s) (rooms (s\<lparr>heap := heap s @ xs\<rparr>))
    \<and> prefix (heap s) (heap (s\<lparr>heap := heap s @ xs\<rparr>))"
proof -
  have "registry_names (s\<lparr>heap := heap s @ xs\<rparr>) = map (\<lambda>a. name ((heap s @ xs) ! a)) (rooms s)"
    by (simp add: registry_names_def)
  then have "registry_names (s\<lparr>heap := heap s @ xs\<rparr>) = registry_names s"
    using names_append [OF assms(1)] by simp
  moreover have "allocated (s\<lparr>heap := heap s @ xs\<rparr>)"
    using assms(1) by (auto simp: allocated_def list_all_iff)
  ultimately show ?thesis using assms(2) by simp
qed

lemma build_identifier_inv:
  assumes "allocated s" and "distinct (registry_names s)"
  shows "allocated (snd (build_identifier b s t))
    \<and> distinct (registry_names (snd (build_identifier b s t)))
    \<and> prefix (rooms s) (rooms (snd (build_identifier b s t)))
    \<and> prefix (heap s) (heap (snd (build_identifier b s t)))"
  using build_identifier_state [of b s t] assms query_room_inv [OF assms, of b "drop 1 t"]
    alloc_only_inv [OF assms]
  by (elim disjE exE) simp_all

lemma startup_empty:
  assumes "rooms s = []"
  shows "startup b s =
    ([InjectCommands] @ (if demo_mode b then [RemoveConsoleLog] else [])
       @ [ConnectCallback, CallbackPresence (user s) ONLINE],
     None,
     s\<lparr>heap := heap s @ [join (new_room b (length (heap s)) ''testroom'')],
       rooms := [length (heap s)]\<rparr>)"
  using assms
  by (simp add: startup_def query_room_hash [OF allocated_no_rooms [OF assms]]
      registry_names_def call_def)

lemma startup_nonempty:
  assumes "rooms s \<noteq> []"
  shows "startup b s =
    ([InjectCommands] @ (if demo_mode b then [RemoveConsoleLog] else [])
       @ [ConnectCallback, CallbackPresence (user s) ONLINE], None, s)"
  using assms by (simp add: startup_def)

lemma startup_inv:
  assumes "allocated s" and "distinct (registry_names s)"
  shows "allocated (snd (snd (startup b s)))
    \<and> distinct (registry_names (snd (snd (startup b s))))
    \<and> prefix (rooms s) (rooms (snd (snd (startup b s))))
    \<and> prefix (heap s) (heap (snd (snd (startup b s))))"
proof (cases "rooms s = []")
  case True
  then show ?thesis
    by (simp add: startup_empty allocated_def registry_names_def)
next
  case False
  with assms show ?thesis by (simp add: startup_nonempty)
qed

lemma exec_inv:
  assumes "allocated s" and "distinct (registry_names s)"
  shows "allocated (exec b x s) \<and> distinct (registry_names (exec b x s))
    \<and> prefix (rooms s) (rooms (exec b x s)) \<and> prefix (heap s) (heap (exec b x s))"
  using query_room_inv [OF assms] build_identifier_inv [OF assms] startup_inv [OF assms]
  by (cases x) simp_all

lemma registry_names_prefix:
  assumes "allocated s" and "prefix (rooms s) (rooms s')" and "prefix (heap s) (heap s')"
  shows "prefix (registry_names s) (registry_names s')"
proof -
  from assms(2) obtain rs where rs: "rooms s' = rooms s @ rs" by (auto simp: prefix_def)
  from assms(3) obtain hs where hs: "heap s' = heap s @ hs" by (auto simp: prefix_def)
  have "map (\<lambda>a. name ((heap s @ hs) ! a)) (rooms s) = registry_names s"
    using assms(1) by (rule names_append)
  then have "registry_names s' = registry_names s @ map (\<lambda>a. name (heap s' ! a)) rs"
    by (simp add: registry_names_def rs hs del: map_eq_conv)
  then show ?thesis by simp
qed

subsection \<open>Identity resolution of persons and of malformed tokens\<close>

text \<open>
  C7. A token that starts with neither \<open>#\<close> nor \<open>@\<close>, the empty token included, is
  refused with the identifier error (a \<^verbatim>\<open>ValueError\<close>) and the session is left as it
  was; a token that starts with \<open>@\<close> resolves to the person named by the rest of the
  token, again with no change of the session.
\<close>

theorem build_identifier_person_or_invalid:
  "(\<not> startswith t CHR ''#'' \<and> \<not> startswith t CHR ''@''
      \<longrightarrow> build_identifier b s t = (Inl invalid_identifier, s))
   \<and> build_identifier b s [] = (Inl invalid_identifier, s)
   \<and> build_identifier b s (CHR ''@'' # u) = (Inr (Person (TextPerson u)), s)
   \<and> person (TextPerson u) = u"
  by (simp add: build_identifier_def startswith_def TextPerson_def)

theorem build_identifier_person_or_invalid_witness:
  "\<not> startswith ''bob'' CHR ''#'' \<and> \<not> startswith ''bob'' CHR ''@''
   \<and> build_identifier a_backend fresh_session ''bob'' = (Inl invalid_identifier, fresh_session)
   \<and> build_identifier a_backend fresh_session ''@bob''
       = (Inr (Person (TextPerson ''bob'')), fresh_session)"
  using build_identifier_person_or_invalid [of "''bob''" a_backend fresh_session "''bob''"]
  by (simp add: startswith_def)

subsection \<open>The methods of a room\<close>

text \<open>
  C8. Each of \<open>join\<close>, \<open>leave\<close>, \<open>create\<close> and \<open>destroy\<close> writes the joined flag only
  (\<open>join\<close> and \<open>create\<close> set it, \<open>leave\<close> and \<open>destroy\<close> clear it): the name, the topic
  and the occupants of the room stay as they were, as does every other room of the heap.
  Called through a reference, none of them touches the registry, so no room leaves it.
\<close>

theorem room_methods_frame:
  assumes "m = join \<or> m = leave \<or> m = create \<or> m = destroy"
  shows "joined (join r) \<and> joined (create r) \<and> \<not> joined (leave r) \<and> \<not> joined (destroy r)
    \<and> (m r)\<lparr>joined := j\<rparr> = r\<lparr>joined := j\<rparr>
    \<and> name (m r) = name r \<and> topic (m r) = topic r \<and> occupants (m r) = occupants r
    \<and> rooms (call a m s) = rooms s \<and> user (call a m s) = user s
    \<and> inroom (call a m s) = inroom s
    \<and> length (heap (call a m s)) = length (heap s)
    \<and> (\<forall>a'. a' \<noteq> a \<longrightarrow> heap (call a m s) ! a' = heap s ! a')
    \<and> (a < length (heap s) \<longrightarrow> heap (call a m s) ! a = m (heap s ! a))"
  using assms by (auto simp: join_def leave_def create_def destroy_def call_def)

theorem room_methods_frame_witness:
  "(leave = join \<or> leave = leave \<or> leave = create \<or> leave = destroy)
   \<and> name (leave (new_room a_backend 0 ''A'')) = ''A''
   \<and> \<not> joined (leave (join (new_room a_backend 0 ''A'')))
   \<and> rooms (call 0 leave (snd (query_room a_backend fresh_session ''#A''))) = [0]
   \<and> heap (call 0 leave (snd (query_room a_backend fresh_session ''#A''))) ! 0
       = leave (new_room a_backend 0 ''A'')"
  using room_methods_frame [of leave "join (new_room a_backend 0 ''A'')" False 0
      "snd (query_room a_backend fresh_session ''#A'')"]
    room_methods_frame [of leave "new_room a_backend 0 ''A''" False 0
      "snd (query_room a_backend fresh_session ''#A'')"]
  by (simp add: query_room_hash allocated_fresh name_new_room)
     (simp add: fresh_session_def registry_names_def)

subsection \<open>Equality and hashing of identities\<close>

text \<open>
  C9. Two persons are equal exactly when their identifier strings are equal, whatever
  their client tag, nickname and full name, and equal persons have equal hashes. Two
  occupants are equal exactly when their persons are equal and their rooms have the same
  name; equal occupants have equal hashes too.
\<close>

theorem identity_equality:
  "(person_eq p q \<longleftrightarrow> person p = person q)
   \<and> person_eq (p\<lparr>client := c, nick := n, fullname := f\<rparr>) p
   \<and> (person_eq p q \<longrightarrow> person_hash H p = person_hash H q)
   \<and> (occupant_eq h x y \<longleftrightarrow>
        pval_eq (occ_person x) (occ_person y) \<and> name (h ! occ_room x) = name (h ! occ_room y))
   \<and> (occupant_eq h (TextOccupant (Pers p) a) (TextOccupant (Pers q) a') \<longleftrightarrow>
        person p = person q \<and> name (h ! a) = name (h ! a'))
   \<and> (occupant_eq h x y \<longrightarrow> occupant_hash H h x = occupant_hash H h y)"
proof -
  have "pval_eq u v \<Longrightarrow> pval_hash H u = pval_hash H v" for u v
    by (cases u; cases v) (simp_all add: person_eq_def person_hash_def)
  then show ?thesis
    by (auto simp: person_eq_def person_hash_def occupant_eq_def room_eq_def
        occupant_hash_def room_hash_def)
qed

theorem identity_equality_witness:
  "person_eq ((TextPerson ''bob'')\<lparr>nick := Some ''bobby''\<rparr>) (TextPerson ''bob'')
   \<and> person_hash (\<lambda>x. int (length x)) ((TextPerson ''bob'')\<lparr>nick := Some ''bobby''\<rparr>)
       = person_hash (\<lambda>x. int (length x)) (TextPerson ''bob'')
   \<and> \<not> person_eq (TextPerson ''bob'') (TextPerson ''carol'')
   \<and> occupant_eq [new_room a_backend 0 ''A'', new_room a_backend 1 ''A'']
        (TextOccupant (Pers (TextPerson ''bob'')) 0) (TextOccupant (Pers (TextPerson ''bob'')) 1)
   \<and> \<not> occupant_eq [new_room a_backend 0 ''A'', new_room a_backend 1 ''B'']
        (TextOccupant (Pers (TextPerson ''bob'')) 0) (TextOccupant (Pers (TextPerson ''bob'')) 1)
   \<and> \<not> occupant_eq [new_room a_backend 0 ''A'', new_room a_backend 1 ''A'']
        (TextOccupant (Pers (TextPerson ''bob'')) 0) (TextOccupant (Pers (TextPerson ''carol'')) 1)"
  using identity_equality [of "(TextPerson ''bob'')\<lparr>nick := Some ''bobby''\<rparr>" "TextPerson ''bob''"
      None None None "\<lambda>x. int (length x)"]
    identity_equality [of "TextPerson ''bob''" "TextPerson ''carol''"]
    identity_equality [of "TextPerson ''bob''" "TextPerson ''bob''" None None None "\<lambda>x. int (length x)"
      "[new_room a_backend 0 ''A'', new_room a_backend 1 ''A'']" _ _ 0 1]
    identity_equality [of "TextPerson ''bob''" "TextPerson ''bob''" None None None "\<lambda>x. int (length x)"
      "[new_room a_backend 0 ''A'', new_room a_backend 1 ''B'']" _ _ 0 1]
    identity_equality [of "TextPerson ''bob''" "TextPerson ''carol''" None None None "\<lambda>x. int (length x)"
      "[new_room a_backend 0 ''A'', new_room a_backend 1 ''A'']" _ _ 0 1]
  by (simp add: TextPerson_def name_new_room)

subsection \<open>Reactions\<close>

text \<open>
  C10. Adding the reaction \<open>R\<close> to the message \<open>M\<close> makes exactly one call of \<^verbatim>\<open>send\<close>:
  to the sender of \<open>M\<close>, with the body \<^verbatim>\<open>reaction +:R:\<close>, in reply to \<open>M\<close>. Removing it
  does the same with \<^verbatim>\<open>reaction -:R:\<close>. The session is not changed.
\<close>

theorem reactions_send_one_reply:
  "add_reaction M R s = ([Send (frm M) (''reaction +:'' @ R @ '':'') (Some M)], s)
   \<and> remove_reaction M R s = ([Send (frm M) (''reaction -:'' @ R @ '':'') (Some M)], s)"
  by (simp add: add_reaction_def remove_reaction_def react_def)

subsection \<open>The registry only grows and holds each name once\<close>

text \<open>
  C3. Let a session with allocated registry addresses and pairwise different registered
  names run any sequence of \<^verbatim>\<open>query_room\<close> calls, \<^verbatim>\<open>build_identifier\<close> calls and
  start-ups of \<^verbatim>\<open>serve_forever\<close>. Then the old registry is a prefix of the new one
  (nothing is removed or reordered), the registered rooms keep their place in the heap and
  their names, and the registered names are still pairwise different.
\<close>

theorem registry_append_only:
  assumes "allocated s" and "distinct (registry_names s)"
  shows "prefix (rooms s) (rooms (run b ops s))
    \<and> prefix (heap s) (heap (run b ops s))
    \<and> prefix (registry_names s) (registry_names (run b ops s))
    \<and> distinct (registry_names (run b ops s))
    \<and> allocated (run b ops s)"
proof -
  have "prefix (rooms s) (rooms (run b ops s)) \<and> prefix (heap s) (heap (run b ops s))
      \<and> distinct (registry_names (run b ops s)) \<and> allocated (run b ops s)"
    using assms
  proof (induction ops arbitrary: s)
    case Nil
    then show ?case by simp
  next
    case (Cons x xs)
    from exec_inv [OF Cons.prems, of b x]
    have st: "allocated (exec b x s)" "distinct (registry_names (exec b x s))"
      "prefix (rooms s) (rooms (exec b x s))" "prefix (heap s) (heap (exec b x s))"
      by simp_all
    from Cons.IH [OF st(1) st(2)] st(3) st(4) show ?case
      by (auto intro: prefix_order.trans)
  qed
  with registry_names_prefix [OF assms(1)] show ?thesis by simp
qed

theorem registry_append_only_witness:
  "allocated fresh_session \<and> distinct (registry_names fresh_session)
   \<and> registry_names (run a_backend
        [Startup, QueryRoom ''#testroom'', QueryRoom ''#A'', BuildIdentifier ''#A/bob'',
         BuildIdentifier ''##A'', QueryRoom ''#A''] fresh_session) = [''testroom'', ''A'']
   \<and> distinct (registry_names (run a_backend
        [Startup, QueryRoom ''#testroom'', QueryRoom ''#A'', BuildIdentifier ''#A/bob'',
         BuildIdentifier ''##A'', QueryRoom ''#A''] fresh_session))"
proof -
  have a: "allocated fresh_session"
    by (simp add: allocated_def fresh_session_def)
  have d: "distinct (registry_names fresh_session)"
    by (simp add: registry_names_def fresh_session_def)
  have n: "registry_names (run a_backend
        [Startup, QueryRoom ''#testroom'', QueryRoom ''#A'', BuildIdentifier ''#A/bob'',
         BuildIdentifier ''##A'', QueryRoom ''#A''] fresh_session) = [''testroom'', ''A'']"
    by code_simp
  from registry_append_only [OF a d] a d n show ?thesis by blast
qed

subsection \<open>The room synthesized at start-up\<close>

text \<open>
  C5. When \<^verbatim>\<open>serve_forever\<close> starts with an empty registry, the start-up leaves
  exactly one registered room, named \<^verbatim>\<open>testroom\<close> and joined; with a registry that is
  not empty it leaves the session as it is. The start-up asks for no input: the loop,
  whose first effect is the first prompt, starts in the session the start-up leaves.
\<close>

theorem startup_testroom:
  "(rooms s = [] \<longrightarrow>
      (\<exists>pre a s1. startup b s = (pre, None, s1) \<and> rooms s1 = [a]
         \<and> name (heap s1 ! a) = ''testroom'' \<and> joined (heap s1 ! a)
         \<and> (\<forall>p. Input p \<notin> set pre)
         \<and> (\<exists>post. fst (serve_forever b script fin s)
               = pre @ fst (serve_loop b script fin s1) @ post)))
   \<and> (rooms s \<noteq> [] \<longrightarrow>
      (\<exists>pre. startup b s = (pre, None, s) \<and> (\<forall>p. Input p \<notin> set pre)
         \<and> (\<exists>post. fst (serve_forever b script fin s)
               = pre @ fst (serve_loop b script fin s) @ post)))"
proof (cases "rooms s = []")
  case True
  then show ?thesis
    by (simp add: serve_forever_def startup_empty join_def name_new_room split: prod.splits)
next
  case False
  then show ?thesis
    by (simp add: serve_forever_def startup_nonempty split: prod.splits)
qed

theorem startup_testroom_witness:
  "rooms fresh_session = []
   \<and> (\<exists>pre a s1. startup a_backend fresh_session = (pre, None, s1) \<and> rooms s1 = [a]
         \<and> name (heap s1 ! a) = ''testroom'' \<and> joined (heap s1 ! a))
   \<and> rooms (snd (query_room a_backend fresh_session ''#A'')) \<noteq> []
   \<and> snd (snd (startup a_backend (snd (query_room a_backend fresh_session ''#A''))))
       = snd (query_room a_backend fresh_session ''#A'')"
proof -
  have e: "rooms fresh_session = []"
    by (simp add: fresh_session_def)
  have n: "rooms (snd (query_room a_backend fresh_session ''#A'')) \<noteq> []"
    by (simp add: query_room_hash allocated_fresh) (simp add: fresh_session_def registry_names_def)
  from startup_testroom [of fresh_session a_backend "[]" EOFError] e
  have "\<exists>pre a s1. startup a_backend fresh_session = (pre, None, s1) \<and> rooms s1 = [a]
         \<and> name (heap s1 ! a) = ''testroom'' \<and> joined (heap s1 ! a)"
    by blast
  moreover
  from startup_testroom [of "snd (query_room a_backend fresh_session ''#A'')" a_backend "[]" EOFError] n
  have "snd (snd (startup a_backend (snd (query_room a_backend fresh_session ''#A''))))
       = snd (query_room a_backend fresh_session ''#A'')"
    by auto
  ultimately show ?thesis using e n by blast
qed

subsection \<open>Resolving a room twice\<close>

text \<open>
  C1, as the code has it. In a session whose registered addresses are allocated, both
  \<^verbatim>\<open>query_room\<close> calls for \<open>#A\<close> succeed, and the two rooms returned have the name
  \<open>A\<close> and are equal as rooms, but they are two objects:
  the second call returns a room it has just constructed (not joined, no topic), which is
  not the registry's entry, and it leaves the registry as the first call left it. What
  was done to the first room between the calls (here by any method \<open>m\<close> that keeps the
  name, such as \<open>join\<close> or setting the topic) shows in the first room only.
\<close>

theorem query_room_twice:
  assumes "allocated s" and "\<And>r. name (m r) = name r"
  shows "\<exists>r1 s1 r2 s2.
      query_room b s (CHR ''#'' # A) = (Inr r1, s1)
    \<and> query_room b (call r1 m s1) (CHR ''#'' # A) = (Inr r2, s2)
    \<and> r2 \<noteq> r1 \<and> r2 \<notin> set (rooms s2)
    \<and> heap s2 ! r1 = m (new_room b r1 A) \<and> heap s2 ! r2 = new_room b r2 A
    \<and> room_eq (heap s2) r1 r2
    \<and> rooms s2 = rooms s1 \<and> registry_names s2 = registry_names s1
    \<and> A \<in> set (registry_names s2)"
proof -
  let ?l = "length (heap s)"
  let ?s1 = "snd (query_room b s (CHR ''#'' # A))"
  let ?t = "call ?l m ?s1"
  let ?s2 = "snd (query_room b ?t (CHR ''#'' # A))"
  have q1: "query_room b s (CHR ''#'' # A) = (Inr ?l, ?s1)"
    by (simp add: query_room_hash [OF assms(1)])
  have h1: "heap ?s1 = heap s @ [new_room b ?l A]"
    by (simp add: query_room_hash [OF assms(1)])
  have r1: "set (rooms ?s1) \<subseteq> insert ?l (set (rooms s))"
    by (auto simp: query_room_hash [OF assms(1)])
  have n1: "A \<in> set (registry_names ?s1)"
    by (simp add: query_room_names [OF assms(1)])
  have ht: "heap ?t = heap s @ [m (new_room b ?l A)]"
    by (simp add: call_def h1)
  have rt: "rooms ?t = rooms ?s1"
    by (simp add: call_def)
  have lt: "a < Suc ?l" if "a \<in> set (rooms ?s1)" for a
    using that r1 allocatedD [OF assms(1), of a] by auto
  then have alt: "allocated ?t"
    by (simp add: allocated_def list_all_iff rt ht)
  have "name (heap ?t ! a) = name (heap ?s1 ! a)" if "a \<in> set (rooms ?s1)" for a
    using lt [OF that] assms(2) by (simp add: ht h1 nth_append name_new_room)
  then have nt: "registry_names ?t = registry_names ?s1"
    by (simp add: registry_names_def rt)
  have q2: "query_room b ?t (CHR ''#'' # A) = (Inr (Suc ?l), ?s2)"
    by (simp add: query_room_hash [OF alt] ht)
  have h2: "heap ?s2 = heap s @ [m (new_room b ?l A), new_room b (Suc ?l) A]"
    by (simp add: query_room_hash [OF alt] ht)
  have r2: "rooms ?s2 = rooms ?s1"
    using n1 by (simp add: query_room_hash [OF alt] nt rt)
  have n2: "registry_names ?s2 = registry_names ?s1"
    using n1 by (simp add: query_room_names [OF alt] nt)
  have notin: "Suc ?l \<notin> set (rooms ?s2)"
    using lt by (auto simp: r2)
  have c1: "heap ?s2 ! ?l = m (new_room b ?l A)"
    by (simp add: h2)
  have c2: "heap ?s2 ! Suc ?l = new_room b (Suc ?l) A"
    by (simp add: h2 nth_append)
  have eq: "room_eq (heap ?s2) ?l (Suc ?l)"
    by (simp add: room_eq_def c1 c2 assms(2) name_new_room)
  show ?thesis
    using q1 q2 notin c1 c2 eq r2 n2 n1 by (intro exI [of _ ?l] exI [of _ ?s1] exI [of _ "Suc ?l"] exI [of _ ?s2]) simp
qed

theorem query_room_twice_witness:
  "allocated fresh_session
   \<and> name (set_topic ''news'' (join (new_room a_backend 0 ''A'')))
       = name (new_room a_backend 0 ''A'')
   \<and> (\<exists>r1 s1 r2 s2.
      query_room a_backend fresh_session ''#A'' = (Inr r1, s1)
    \<and> query_room a_backend (call r1 (\<lambda>r. set_topic ''news'' (join r)) s1) ''#A'' = (Inr r2, s2)
    \<and> r2 \<noteq> r1 \<and> rooms s2 = rooms s1 \<and> room_eq (heap s2) r1 r2)"
proof -
  have n: "name (set_topic ''news'' (join r)) = name r" for r
    by (simp add: set_topic_def join_def)
  from query_room_twice [OF allocated_fresh, of "\<lambda>r. set_topic ''news'' (join r)" a_backend "''A''"] n
  have "\<exists>r1 s1 r2 s2.
      query_room a_backend fresh_session ''#A'' = (Inr r1, s1)
    \<and> query_room a_backend (call r1 (\<lambda>r. set_topic ''news'' (join r)) s1) ''#A'' = (Inr r2, s2)
    \<and> r2 \<noteq> r1 \<and> rooms s2 = rooms s1 \<and> room_eq (heap s2) r1 r2"
    by blast
  with allocated_fresh n show ?thesis by blast
qed

text \<open>
  The claim as stated fails on a fresh session: the second call returns the address 1,
  not the registered address 0, and the room at 1 is not joined although the room at 0
  was joined through the first result.
\<close>

theorem query_room_second_result_is_new:
  "query_room a_backend fresh_session ''#A''
     = (Inr 0, fresh_session\<lparr>heap := [new_room a_backend 0 ''A''], rooms := [0]\<rparr>)
   \<and> query_room a_backend
       (call 0 join (fresh_session\<lparr>heap := [new_room a_backend 0 ''A''], rooms := [0]\<rparr>)) ''#A''
     = (Inr 1, fresh_session\<lparr>heap := [join (new_room a_backend 0 ''A''), new_room a_backend 1 ''A''],
                            rooms := [0]\<rparr>)
   \<and> (Inr 1 :: exn + nat) \<noteq> Inr 0
   \<and> joined (join (new_room a_backend 0 ''A''))
   \<and> \<not> joined (new_room a_backend 1 ''A'')"
  by (simp add: query_room_def TextRoom_eq room_in_def room_eq_def call_def fresh_session_def
      join_def new_room_def)

subsection \<open>Resolving an occupant\<close>

lemma str_split_no_sep: "sep \<notin> set xs \<Longrightarrow> str_split sep xs = [xs]"
  by (induction xs) auto

lemma str_split_append:
  "sep \<notin> set xs \<Longrightarrow> str_split sep (xs @ sep # ys) = xs # str_split sep ys"
  by (induction xs) auto

text \<open>
  C2, as the code has it. For a token \<open>#room/person\<close> with no further slash,
  \<^verbatim>\<open>build_identifier\<close> returns an occupant whose person has the identifier \<open>person\<close> and
  whose room is named \<open>room\<close>. That room is constructed by the call, at a new address,
  whether or not a room of the name is registered, and it is not entered in the registry:
  the registry, the user and the mode of the session are unchanged, and so they are after
  a second resolution.
\<close>

theorem build_identifier_occupant:
  assumes "CHR ''/'' \<notin> set room" and "CHR ''/'' \<notin> set p"
  shows "\<exists>a s'. build_identifier b s (CHR ''#'' # room @ CHR ''/'' # p)
        = (Inr (Occupant (TextOccupant (Pers (TextPerson p)) a)), s')
    \<and> person (TextPerson p) = p
    \<and> a = length (heap s) \<and> heap s' = heap s @ [new_room b a room]
    \<and> name (heap s' ! a) = room \<and> \<not> joined (heap s' ! a)
    \<and> rooms s' = rooms s \<and> user s' = user s \<and> inroom s' = inroom s
    \<and> rooms (snd (build_identifier b s' (CHR ''#'' # room @ CHR ''/'' # p))) = rooms s"
proof -
  have sp: "str_split CHR ''/'' (room @ CHR ''/'' # p) = [room, p]"
    using assms by (simp add: str_split_append str_split_no_sep)
  have "build_identifier b t (CHR ''#'' # room @ CHR ''/'' # p)
      = (Inr (Occupant (TextOccupant (Pers (TextPerson p)) (length (heap t)))),
         t\<lparr>heap := heap t @ [new_room b (length (heap t)) room]\<rparr>)" for t
    by (simp add: build_identifier_def startswith_def sp TextRoom_eq)
  then show ?thesis
    by (simp add: TextPerson_def new_room_def)
qed

theorem build_identifier_occupant_witness:
  "CHR ''/'' \<notin> set ''A'' \<and> CHR ''/'' \<notin> set ''bob''
   \<and> build_identifier a_backend fresh_session ''#A/bob''
       = (Inr (Occupant (TextOccupant (Pers (TextPerson ''bob'')) 0)),
          fresh_session\<lparr>heap := [new_room a_backend 0 ''A'']\<rparr>)
   \<and> rooms (fresh_session\<lparr>heap := [new_room a_backend 0 ''A'']\<rparr>) = rooms fresh_session"
  using build_identifier_occupant [of "''A''" "''bob''" a_backend fresh_session]
  by (auto simp: fresh_session_def)

text \<open>
  The claim as stated fails in two places. A token with a second slash is refused (the
  unpacking of the split raises \<^verbatim>\<open>ValueError\<close>). And with a joined room \<open>A\<close>
  registered at address 0, resolving \<open>#A/bob\<close> constructs a second room \<open>A\<close> at address
  1, not joined and not registered; on a fresh session the registry is still empty after
  the resolution.
\<close>

theorem occupant_room_is_constructed_not_registered:
  "build_identifier a_backend fresh_session ''#a/b/c'' = (Inl too_many_values, fresh_session)
   \<and> build_identifier a_backend
        (fresh_session\<lparr>heap := [join (new_room a_backend 0 ''A'')], rooms := [0]\<rparr>) ''#A/bob''
      = (Inr (Occupant (TextOccupant (Pers (TextPerson ''bob'')) 1)),
         fresh_session\<lparr>heap := [join (new_room a_backend 0 ''A''), new_room a_backend 1 ''A''],
                        rooms := [0]\<rparr>)
   \<and> (1::nat) \<notin> set [0]
   \<and> \<not> joined (new_room a_backend 1 ''A'')
   \<and> rooms (snd (build_identifier a_backend fresh_session ''#A/bob'')) = []"
  by (simp add: build_identifier_def startswith_def TextRoom_eq fresh_session_def new_room_def)

subsection \<open>The end of the session loop\<close>

lemma serve_loop_list_all:
  assumes inp: "\<And>p. P (Input p)"
    and body: "\<And>s f t entry h. list_all P (fst (after_input b s f t entry h))"
  shows "list_all P (fst (serve_loop b script fin s))"
proof (induction script arbitrary: s)
  case Nil
  then show ?case by (simp add: inp split: sum.splits prod.splits)
next
  case (Cons x script)
  obtain entry h where x: "x = (entry, h)" by (cases x)
  show ?case
  proof (cases "before_input b s")
    case (Inl e)
    then show ?thesis by (simp add: x)
  next
    case (Inr ftp)
    obtain f t p where ftp: "ftp = (f, t, p)" by (cases ftp)
    obtain effs r s1 where ai: "after_input b s f t entry h = (effs, r, s1)"
      by (cases "after_input b s f t entry h")
    have effs: "list_all P effs"
      using body [of s f t entry h] by (simp add: ai)
    show ?thesis
    proof (cases r)
      case (Some e)
      with effs show ?thesis by (simp add: x Inr ftp ai inp)
    next
      case None
      with effs Cons.IH [of s1] show ?thesis
        by (auto simp: x Inr ftp ai inp split: prod.splits)
    qed
  qed
qed

lemma startup_returns:
  "\<exists>s1. startup b s =
     ([InjectCommands] @ (if demo_mode b then [RemoveConsoleLog] else [])
        @ [ConnectCallback, CallbackPresence (user s) ONLINE], None, s1)"
  by (cases "rooms s = []") (simp_all add: startup_empty startup_nonempty)

text \<open>
  C4. Whatever the console delivers and whatever the host's message handler does, an
  exception included, and whichever exception ends the loop, the effects of
  \<^verbatim>\<open>serve_forever\<close> end with the offline presence notification, the disconnect hook
  and the shutdown hook, in this order, and none of the three occurs earlier. The call
  returns normally exactly when the loop was ended by \<^verbatim>\<open>EOFError\<close> or
  \<^verbatim>\<open>KeyboardInterrupt\<close>. The three hooks belong to the host framework and are taken
  to return.
\<close>

theorem cleanup_on_every_exit:
  "\<exists>pre r s'. serve_forever b script fin s
       = (pre @ [CallbackPresence (user s') OFFLINE, DisconnectCallback, Shutdown], r, s')
     \<and> DisconnectCallback \<notin> set pre \<and> Shutdown \<notin> set pre
     \<and> (\<forall>u. CallbackPresence u OFFLINE \<notin> set pre)
     \<and> (r = None \<longleftrightarrow> fst (snd (serve_loop b script fin (snd (snd (startup b s)))))
                          \<in> {EOFError, KeyboardInterrupt})"
proof -
  obtain s1 where st: "startup b s =
     ([InjectCommands] @ (if demo_mode b then [RemoveConsoleLog] else [])
        @ [ConnectCallback, CallbackPresence (user s) ONLINE], None, s1)"
    using startup_returns by blast
  obtain tr e s2 where lp: "serve_loop b script fin s1 = (tr, e, s2)"
    by (cases "serve_loop b script fin s1")
  have "list_all (\<lambda>x. x \<noteq> DisconnectCallback \<and> x \<noteq> Shutdown
        \<and> (\<forall>u. x \<noteq> CallbackPresence u OFFLINE)) (fst (serve_loop b script fin s1))"
    by (rule serve_loop_list_all)
      (simp_all add: after_input_def Let_def split: prod.splits option.splits sum.splits)
  then have tr: "DisconnectCallback \<notin> set tr" "Shutdown \<notin> set tr"
    "\<And>u. CallbackPresence u OFFLINE \<notin> set tr"
    by (auto simp: list_all_iff lp)
  show ?thesis
    using tr by (simp add: serve_forever_def st lp)
qed

theorem cleanup_on_every_exit_witness:
  "fst (snd (serve_forever a_backend
       [(''hello'', quiet), (''hi'', \<lambda>msg s. (Some (OtherError ''boom''), s))]
       EOFError fresh_session)) = Some (OtherError ''boom'')
   \<and> (\<exists>pre r s'. serve_forever a_backend
       [(''hello'', quiet), (''hi'', \<lambda>msg s. (Some (OtherError ''boom''), s))]
       EOFError fresh_session
         = (pre @ [CallbackPresence (user s') OFFLINE, DisconnectCallback, Shutdown], r, s')
       \<and> DisconnectCallback \<notin> set pre \<and> Shutdown \<notin> set pre
       \<and> (\<forall>u. CallbackPresence u OFFLINE \<notin> set pre))"
proof -
  have "fst (snd (serve_forever a_backend
       [(''hello'', quiet), (''hi'', \<lambda>msg s. (Some (OtherError ''boom''), s))]
       EOFError fresh_session)) = Some (OtherError ''boom'')"
    by code_simp
  with cleanup_on_every_exit [of a_backend
       "[(''hello'', quiet), (''hi'', \<lambda>msg s. (Some (OtherError ''boom''), s))]"
       EOFError fresh_session]
  show ?thesis by blast
qed

subsection \<open>The mention scan\<close>

text \<open>
  C6 does not hold of the code. The words found by the scan are passed to
  \<^verbatim>\<open>build_identifier\<close> without their \<open>@\<close> (\<^verbatim>\<open>word[1:]\<close>), and
  \<^verbatim>\<open>build_identifier\<close> refuses a token that starts with neither \<open>#\<close> nor \<open>@\<close>. On the
  line \<^verbatim>\<open>hello @bob and @carol\<close> the scan finds the two words, the first resolution
  raises, the mention handler is not called and the exception leaves \<^verbatim>\<open>serve_forever\<close>.
\<close>

theorem mention_scan_raises:
  "findall_mentions ''hello @bob and @carol'' = [''@bob'', ''@carol'']
   \<and> build_identifier a_backend fresh_session ''bob'' = (Inl invalid_identifier, fresh_session)
   \<and> mentioned a_backend fresh_session ''hello @bob and @carol''
       = (Inl invalid_identifier, fresh_session)
   \<and> after_input a_backend fresh_session (Person (user fresh_session))
        (Person (bot_identifier a_backend)) ''hello @bob and @carol'' quiet
       = ([CallbackMessage \<lparr>body = ''hello @bob and @carol'', frm = Person (user fresh_session),
                             to = Person (bot_identifier a_backend)\<rparr>],
          Some invalid_identifier, fresh_session)
   \<and> fst (snd (serve_forever a_backend [(''hello @bob and @carol'', quiet)] EOFError
        fresh_session)) = Some invalid_identifier"
  by code_simp

text \<open>The same on every line: a word of the scan begins with \<open>@\<close> and a character of
  the class, so the first word raises and the mention handler is never called.\<close>

lemma findall_mentions_shape:
  "w \<in> set (findall_mentions xs) \<Longrightarrow> \<exists>c cs. w = CHR ''@'' # c # cs \<and> word_char c"
proof (induction xs rule: findall_mentions.induct)
  case 1
  then show ?case by simp
next
  case (2 c cs)
  show ?case
  proof (cases "c = CHR ''@'' \<and> takeWhile word_char cs \<noteq> []")
    case True
    then obtain d ds where tw: "takeWhile word_char cs = d # ds"
      by (cases "takeWhile word_char cs") auto
    then have "d \<in> set (takeWhile word_char cs)" by simp
    then have "word_char d" by (rule set_takeWhileD [THEN conjunct2])
    with 2 True tw show ?thesis by auto
  next
    case False
    with 2 show ?thesis by auto
  qed
qed

lemma build_identifier_word:
  "word_char c \<Longrightarrow> build_identifier b s (c # cs) = (Inl invalid_identifier, s)"
  by (auto simp: build_identifier_def startswith_def word_char_def)

lemma mentioned_cases:
  "mentioned b s entry =
     (if findall_mentions entry = [] then (Inr [], s) else (Inl invalid_identifier, s))"
proof (cases "findall_mentions entry")
  case Nil
  then show ?thesis by (simp add: mentioned_def)
next
  case (Cons w ws)
  then have "w \<in> set (findall_mentions entry)" by simp
  then obtain c cs where w: "w = CHR ''@'' # c # cs" and c: "word_char c"
    using findall_mentions_shape by blast
  show ?thesis
    by (simp add: mentioned_def Cons w startswith_def build_identifier_word [OF c])
qed

lemma mention_never_called:
  "CallbackMention m l \<notin> set (fst (serve_forever b script fin s))"
proof -
  have "list_all (\<lambda>x. x \<noteq> CallbackMention m l) (fst (serve_loop b script fin s))" for s
    by (rule serve_loop_list_all)
      (simp_all add: after_input_def mentioned_cases Let_def split: prod.splits option.splits)
  then have lp: "CallbackMention m l \<notin> set (fst (serve_loop b script fin s))" for s
    by (auto simp: list_all_iff)
  obtain s1 where st: "startup b s =
     ([InjectCommands] @ (if demo_mode b then [RemoveConsoleLog] else [])
        @ [ConnectCallback, CallbackPresence (user s) ONLINE], None, s1)"
    using startup_returns by blast
  show ?thesis
    using lp [of s1] by (auto simp: serve_forever_def st split: prod.splits)
qed

end
